theory Spec2Isabelle
  imports Main
begin

section \<open>Python values, exceptions and arrays\<close>

text \<open>
  The model follows \<^verbatim>\<open>src/retro/scan.py\<close>. Every exception the function can raise is
  a value of \<open>exn\<close>; a computation that may raise returns \<open>exn + 'a\<close>, with \<open>Inl\<close> the
  exception.
\<close>

datatype exn =
  StopIteration | TypeError | ValueError | OverflowError | KeyError | IOError
  | Exception string

text \<open>
  The objects that can occur in \<^verbatim>\<open>scan_values\<close>:
  \<^item> \<open>Scalar x\<close>: a number (\<^verbatim>\<open>np.isscalar\<close> is true, not iterable);
  \<^item> \<open>Sequence xs\<close>: a list or tuple (an instance of \<^verbatim>\<open>collections.Sequence\<close>);
  \<^item> \<open>Iterable xs\<close>: an object that is not a \<^verbatim>\<open>Sequence\<close> but can be iterated any
    number of times (a numpy array, a set);
  \<^item> \<open>Generator xs\<close>: a one-shot iterator with the items \<open>xs\<close> left to yield;
  \<^item> \<open>Opaque\<close>: any other object (\<^verbatim>\<open>None\<close>): neither scalar nor iterable.

  Objects are taken to be distinct from one another: no iterator is shared between two
  places of the specification.
\<close>

datatype 'a pyobj =
  Scalar 'a
  | Sequence "'a pyobj list"
  | Iterable "'a pyobj list"
  | Generator "'a pyobj list"
  | Opaque

fun isscalar :: "'a pyobj \<Rightarrow> bool" where
  "isscalar (Scalar x) = True"
| "isscalar obj = False"

fun isinstance_Sequence :: "'a pyobj \<Rightarrow> bool" where
  "isinstance_Sequence (Sequence xs) = True"
| "isinstance_Sequence obj = False"

text \<open>\<^verbatim>\<open>next(iter(obj))\<close>: the first item, and the object as the call leaves it.\<close>

fun next_iter :: "'a pyobj \<Rightarrow> exn + ('a pyobj \<times> 'a pyobj)" where
  "next_iter (Scalar x) = Inl TypeError"
| "next_iter Opaque = Inl TypeError"
| "next_iter (Sequence []) = Inl StopIteration"
| "next_iter (Sequence (x # xs)) = Inr (x, Sequence (x # xs))"
| "next_iter (Iterable []) = Inl StopIteration"
| "next_iter (Iterable (x # xs)) = Inr (x, Iterable (x # xs))"
| "next_iter (Generator []) = Inl StopIteration"
| "next_iter (Generator (x # xs)) = Inr (x, Generator xs)"

text \<open>\<^verbatim>\<open>list(obj)\<close>, also the items a \<^verbatim>\<open>for\<close> loop over \<open>obj\<close> visits.\<close>

fun py_list :: "'a pyobj \<Rightarrow> exn + 'a pyobj list" where
  "py_list (Sequence xs) = Inr xs"
| "py_list (Iterable xs) = Inr xs"
| "py_list (Generator xs) = Inr xs"
| "py_list (Scalar x) = Inl TypeError"
| "py_list Opaque = Inl TypeError"

text \<open>
  \<^verbatim>\<open>dict(zip(keys, values))\<close>: \<^verbatim>\<open>zip\<close> stops at the shorter list, and a key that
  occurs twice keeps the value bound last.
\<close>

definition dict_zip :: "'k list \<Rightarrow> 'v list \<Rightarrow> ('k \<rightharpoonup> 'v)" where
  "dict_zip ks vs = Map.empty(ks [\<mapsto>] vs)"

text \<open>
  \<^verbatim>\<open>itertools.product(*pools)\<close>: the tuples of the Cartesian product in the order of
  nested \<^verbatim>\<open>for\<close> loops, the first pool outermost. No pool at all gives one empty tuple.
\<close>

fun itertools_product :: "'a list list \<Rightarrow> 'a list list" where
  "itertools_product [] = [[]]"
| "itertools_product (pool # pools) =
     concat (map (\<lambda>x. map (\<lambda>tl. x # tl) (itertools_product pools)) pool)"

text \<open>A C-contiguous numpy array: its shape and its items in row-major order.\<close>

record 'f ndarray =
  shape :: "nat list"
  data :: "'f list"

text \<open>
  \<^verbatim>\<open>np.array(vals, dtype=FTYPE)\<close> on a list of scalars: each item is converted in turn,
  and the first conversion that raises ends the call.
\<close>

fun np_array :: "('r \<Rightarrow> exn + 'f) \<Rightarrow> 'r list \<Rightarrow> exn + 'f list" where
  "np_array dtype [] = Inr []"
| "np_array dtype (v # vs) =
     (case dtype v of
        Inl e \<Rightarrow> Inl e
      | Inr x \<Rightarrow> (case np_array dtype vs of Inl e \<Rightarrow> Inl e | Inr xs \<Rightarrow> Inr (x # xs)))"

text \<open>\<^verbatim>\<open>a.reshape(shp)\<close>: the items stay in place; the sizes must agree.\<close>

definition reshape :: "'f list \<Rightarrow> nat list \<Rightarrow> exn + 'f ndarray" where
  "reshape xs shp =
     (if prod_list shp = length xs then Inr \<lparr>shape = shp, data = xs\<rparr> else Inl ValueError)"

section \<open>The scan\<close>

text \<open>
  What \<^verbatim>\<open>scan\<close> takes from its surroundings: the module constant \<^verbatim>\<open>FTYPE\<close> (imported
  from the package, whose definition is not part of the sources at hand: it is a
  parameter, the conversion of one metric value to the array's item type), the clock
  \<^verbatim>\<open>time.time()\<close>, and the printing and flushing of the progress line, which gets the
  time log, \<^verbatim>\<open>total_points\<close> and \<open>n\<close> and may raise. The state of the world (clock,
  standard output, whatever the metric reads and writes) has type \<open>'s\<close>.
\<close>

record ('r, 'f, 's, 't) env =
  FTYPE :: "'r \<Rightarrow> exn + 'f"
  time_time :: "'s \<Rightarrow> 't \<times> 's"
  print_progress :: "'t list \<Rightarrow> nat \<Rightarrow> nat \<Rightarrow> 's \<Rightarrow> exn option \<times> 's"

text \<open>
  The metric is called as \<^verbatim>\<open>metric(hypo_params_dict, **metric_kw)\<close>; it may read and
  change the state of the world, and it returns a value or raises.
\<close>

type_synonym ('k, 'a, 'v, 'r, 's) metric =
  "('k \<rightharpoonup> 'a pyobj) \<Rightarrow> ('k \<rightharpoonup> 'v) \<Rightarrow> 's \<Rightarrow> (exn + 'r) \<times> 's"

text \<open>One entry of the log of metric invocations: the mapping passed, and the outcome.\<close>

type_synonym ('k, 'a, 'r) call = "('k \<rightharpoonup> 'a pyobj) \<times> (exn + 'r)"

record ('k, 'a, 'r, 'f, 's) outcome =
  world :: 's
  calls :: "('k, 'a, 'r) call list"
  result :: "exn + 'f ndarray"

definition report_after :: nat where
  "report_after = 500"

text \<open>
  Lines 89 to 96: each item of \<^verbatim>\<open>scan_values\<close> is kept if it is a \<^verbatim>\<open>Sequence\<close>, made a
  one-item list if it is a scalar, and passed to \<^verbatim>\<open>list\<close> otherwise.
\<close>

definition materialize :: "'a pyobj \<Rightarrow> exn + 'a pyobj list" where
  "materialize sv =
     (if isinstance_Sequence sv then py_list sv
      else if isscalar sv then Inr [sv]
      else py_list sv)"

fun scan_sequences_of :: "'a pyobj list \<Rightarrow> exn + 'a pyobj list list" where
  "scan_sequences_of [] = Inr []"
| "scan_sequences_of (sv # svs) =
     (case materialize sv of
        Inl e \<Rightarrow> Inl e
      | Inr xs \<Rightarrow>
          (case scan_sequences_of svs of Inl e \<Rightarrow> Inl e | Inr xss \<Rightarrow> Inr (xs # xss)))"

text \<open>
  Lines 84 to 96: the first item of \<^verbatim>\<open>scan_values\<close> is taken; if it is a scalar the
  whole of \<^verbatim>\<open>scan_values\<close> becomes the only axis; then the axes are materialized.
\<close>

definition scan_axes :: "'a pyobj \<Rightarrow> exn + 'a pyobj list list" where
  "scan_axes scan_values =
     (case next_iter scan_values of
        Inl e \<Rightarrow> Inl e
      | Inr (first, scan_values1) \<Rightarrow>
          (case (if isscalar first then Inr [scan_values1] else py_list scan_values1) of
             Inl e \<Rightarrow> Inl e
           | Inr svs \<Rightarrow> scan_sequences_of svs))"

text \<open>
  Lines 103 to 114, one round per point: the metric is called and its value appended;
  when \<open>n > 0\<close> and \<open>n\<close> is a multiple of \<open>report_after\<close> the clock is read, the time
  appended to the log and the progress line printed. An exception of the metric or of
  the printing leaves the loop at once.
\<close>

fun scan_loop ::
  "('r, 'f, 's, 't) env \<Rightarrow> 'k list \<Rightarrow> ('k, 'a, 'v, 'r, 's) metric \<Rightarrow> ('k \<rightharpoonup> 'v) \<Rightarrow> nat \<Rightarrow>
   nat \<Rightarrow> 'a pyobj list list \<Rightarrow> 't list \<Rightarrow> 'r list \<Rightarrow> ('k, 'a, 'r) call list \<Rightarrow> 's \<Rightarrow>
   's \<times> ('k, 'a, 'r) call list \<times> (exn + 'r list)" where
  "scan_loop env hypo_params metric metric_kw total_points n [] tms metric_vals log s =
     (s, log, Inr metric_vals)"
| "scan_loop env hypo_params metric metric_kw total_points n (param_values # rest) tms
     metric_vals log s =
     (let args = dict_zip hypo_params param_values in
      case metric args metric_kw s of
        (Inl e, s1) \<Rightarrow> (s1, log @ [(args, Inl e)], Inl e)
      | (Inr metric_val, s1) \<Rightarrow>
          if n > 0 \<and> n mod report_after = 0 then
            (case time_time env s1 of
               (t, s2) \<Rightarrow>
                 (case print_progress env (tms @ [t]) total_points n s2 of
                    (Some e, s3) \<Rightarrow> (s3, log @ [(args, Inr metric_val)], Inl e)
                  | (None, s3) \<Rightarrow>
                      scan_loop env hypo_params metric metric_kw total_points (Suc n) rest
                        (tms @ [t]) (metric_vals @ [metric_val])
                        (log @ [(args, Inr metric_val)]) s3))
          else
            scan_loop env hypo_params metric metric_kw total_points (Suc n) rest tms
              (metric_vals @ [metric_val]) (log @ [(args, Inr metric_val)]) s1)"

definition scan ::
  "('r, 'f, 's, 't) env \<Rightarrow> 'k list \<Rightarrow> 'a pyobj \<Rightarrow> ('k, 'a, 'v, 'r, 's) metric \<Rightarrow>
   ('k \<rightharpoonup> 'v) option \<Rightarrow> 's \<Rightarrow> ('k, 'a, 'r, 'f, 's) outcome" where
  "scan env hypo_params scan_values metric metric_kw s =
     (let kw = (case metric_kw of None \<Rightarrow> Map.empty | Some m \<Rightarrow> m) in
      case scan_axes scan_values of
        Inl e \<Rightarrow> \<lparr>world = s, calls = [], result = Inl e\<rparr>
      | Inr scan_sequences \<Rightarrow>
          (let shp = map length scan_sequences;
               total_points = prod_list shp
           in case time_time env s of
             (t0, s0) \<Rightarrow>
               (case scan_loop env hypo_params metric kw total_points 0
                       (itertools_product scan_sequences) [t0] [] [] s0 of
                  (s1, log, Inl e) \<Rightarrow> \<lparr>world = s1, calls = log, result = Inl e\<rparr>
                | (s1, log, Inr metric_vals) \<Rightarrow>
                    \<lparr>world = s1, calls = log,
                     result = (case np_array (FTYPE env) metric_vals of
                                 Inl e \<Rightarrow> Inl e
                               | Inr xs \<Rightarrow> reshape xs shp)\<rparr>)))"

section \<open>Reading the result\<close>


fun ravel_multi_index :: "nat list \<Rightarrow> nat list \<Rightarrow> nat option" where
  "ravel_multi_index [] [] = Some 0"
| "ravel_multi_index (i # idx) (d # ds) =
     (if i < d then map_option (\<lambda>k. i * prod_list ds + k) (ravel_multi_index idx ds) else None)"
| "ravel_multi_index idx ds = None"

definition item :: "'f ndarray \<Rightarrow> nat list \<Rightarrow> 'f option" where
  "item a idx =
     (case ravel_multi_index idx (shape a) of
        None \<Rightarrow> None
      | Some k \<Rightarrow> if k < length (data a) then Some (data a ! k) else None)"


section \<open>The item type of the array\<close>

text \<open>
  \<^verbatim>\<open>FTYPE\<close> is a numpy floating-point type. Its conversion of a Python integer is
  modelled on the integers: \<open>round_to_precision p v\<close> rounds \<open>v\<close> to \<open>p\<close> significant bits,
  ties to the even significand (IEEE 754 round-half-even, which is what the conversion
  of a Python int to a C double does), and \<open>float_of_int\<close> raises OverflowError beyond the
  largest exponent. The result is the integer the float denotes. \<open>np_float64\<close> is
  \<^verbatim>\<open>np.float64\<close>: 53 significant bits.
\<close>

fun bit_length :: "nat \<Rightarrow> nat" where
  "bit_length n = (if n = 0 then 0 else Suc (bit_length (n div 2)))"

definition round_to_precision :: "nat \<Rightarrow> int \<Rightarrow> int" where
  "round_to_precision p v =
     (let a = nat \<bar>v\<bar>; e = bit_length a in
      if e \<le> p then v
      else
        let q = 2 ^ (e - p); lo = a div q; r = a mod q; half = q div 2;
            m = (if r > half \<or> (r = half \<and> odd lo) then lo + 1 else lo)
        in sgn v * int (m * q))"

definition float_of_int :: "nat \<Rightarrow> nat \<Rightarrow> int \<Rightarrow> exn + int" where
  "float_of_int p emax v =
     (let x = round_to_precision p v in
      if \<bar>x\<bar> < 2 ^ emax then Inr x else Inl OverflowError)"

definition np_float64 :: "int \<Rightarrow> exn + int" where
  "np_float64 = float_of_int 53 1024"

section \<open>Environments, metrics and grids of the examples\<close>

text \<open>
  The concrete inputs the statements below are evaluated at. \<open>quiet_env\<close> has the 64-bit
  float as \<^verbatim>\<open>FTYPE\<close>, a clock that always reads 0 and a standard output that accepts
  every line; in \<open>closed_stdout_env\<close> every write to standard output raises IOError.
  \<open>metric_ab\<close> is the metric of the example (\<open>va * 100 + vb\<close>), \<open>metric_a\<close> returns the value
  bound to the name a, \<open>metric_const c\<close> returns \<open>c\<close> on every point, and \<open>metric_boom\<close>
  raises when a is 2. A metric raises KeyError when a name it reads is not bound to a
  number. \<open>grid23\<close> is the grid of the example; \<open>grid501\<close> is one axis of 501 points.
\<close>

definition quiet_env :: "(int, int, unit, nat) env" where
  "quiet_env =
     \<lparr>FTYPE = np_float64, time_time = (\<lambda>s. (0, s)),
      print_progress = (\<lambda>tms total_points n s. (None, s))\<rparr>"

definition closed_stdout_env :: "(int, int, unit, nat) env" where
  "closed_stdout_env =
     \<lparr>FTYPE = np_float64, time_time = (\<lambda>s. (0, s)),
      print_progress = (\<lambda>tms total_points n s. (Some IOError, s))\<rparr>"

definition metric_ab :: "(string, int, int, int, 's) metric" where
  "metric_ab args kw s =
     (case (args ''a'', args ''b'') of
        (Some (Scalar va), Some (Scalar vb)) \<Rightarrow> (Inr (va * 100 + vb), s)
      | _ \<Rightarrow> (Inl KeyError, s))"

definition metric_const :: "'r \<Rightarrow> (string, int, int, 'r, 's) metric" where
  "metric_const c args kw s = (Inr c, s)"

definition metric_boom :: "(string, int, int, int, 's) metric" where
  "metric_boom args kw s =
     (case args ''a'' of
        Some (Scalar va) \<Rightarrow> if va = 2 then (Inl (Exception ''boom''), s) else (Inr va, s)
      | _ \<Rightarrow> (Inl KeyError, s))"

definition grid23 :: "int pyobj" where
  "grid23 =
     Sequence [Sequence [Scalar 1, Scalar 2], Sequence [Scalar 10, Scalar 20, Scalar 30]]"

definition metric_a :: "(string, int, int, int, 's) metric" where
  "metric_a args kw s =
     (case args ''a'' of
        Some (Scalar va) \<Rightarrow> (Inr va, s)
      | _ \<Rightarrow> (Inl KeyError, s))"


section \<open>The loop\<close>

text \<open>
  The accumulators of the loop (the values and the log collected so far) only grow: a
  run with accumulators is the run from empty ones, with its results appended.
\<close>

lemma scan_loop_acc:
  "log \<noteq> [] \<Longrightarrow>
   scan_loop env hp metric kw tp n pts tms vals log s =
     (case scan_loop env hp metric kw tp n pts tms [] [] s of
        (s', new, r) \<Rightarrow>
          (s', log @ new, case r of Inl e \<Rightarrow> Inl e | Inr vs \<Rightarrow> Inr (vals @ vs)))"
proof (induction pts arbitrary: n tms vals log s)
  case Nil
  show ?case by simp
next
  case (Cons p rest)
  define d where "d = dict_zip hp p"
  obtain r s1 where m: "metric d kw s = (r, s1)" by (cases "metric d kw s")
  show ?case
  proof (cases r)
    case (Inl e)
    with m show ?thesis by (simp add: d_def [symmetric])
  next
    case (Inr v)
    have step: "scan_loop env hp metric kw tp (Suc n) rest tms' (vals @ [v]) (log @ [(d, Inr v)]) s' =
        (case scan_loop env hp metric kw tp (Suc n) rest tms' [v] [(d, Inr v)] s' of
           (s'', new, r) \<Rightarrow>
             (s'', log @ new, case r of Inl e \<Rightarrow> Inl e | Inr vs \<Rightarrow> Inr (vals @ vs)))"
      for tms' s'
    proof -
      have a: "scan_loop env hp metric kw tp (Suc n) rest tms' (vals @ [v]) (log @ [(d, Inr v)]) s' =
        (case scan_loop env hp metric kw tp (Suc n) rest tms' [] [] s' of
           (s'', new, r) \<Rightarrow>
             (s'', (log @ [(d, Inr v)]) @ new,
              case r of Inl e \<Rightarrow> Inl e | Inr vs \<Rightarrow> Inr ((vals @ [v]) @ vs)))"
        by (rule Cons.IH) simp
      have b: "scan_loop env hp metric kw tp (Suc n) rest tms' [v] [(d, Inr v)] s' =
        (case scan_loop env hp metric kw tp (Suc n) rest tms' [] [] s' of
           (s'', new, r) \<Rightarrow>
             (s'', [(d, Inr v)] @ new,
              case r of Inl e \<Rightarrow> Inl e | Inr vs \<Rightarrow> Inr ([v] @ vs)))"
        by (rule Cons.IH) simp
      show ?thesis
        unfolding a b by (simp split: prod.splits sum.splits)
    qed
    obtain t s2 where tt: "time_time env s1 = (t, s2)" by (cases "time_time env s1")
    obtain po s3 where pp: "print_progress env (tms @ [t]) tp n s2 = (po, s3)"
      by (cases "print_progress env (tms @ [t]) tp n s2")
    show ?thesis
    proof (cases "n > 0 \<and> n mod report_after = 0")
      case True
      then have c: "(0 < n \<and> n mod report_after = 0) = True" by simp
      show ?thesis
      proof (cases po)
        case None
        with m Inr tt pp step [of "tms @ [t]" s3] show ?thesis
          by (simp add: d_def [symmetric] c)
      next
        case (Some e)
        with m Inr tt pp show ?thesis
          by (simp add: d_def [symmetric] c)
      qed
    next
      case False
      then have c: "(0 < n \<and> n mod report_after = 0) = False" by simp
      from m Inr step [of tms s1] show ?thesis
        by (simp add: d_def [symmetric] c)
    qed
  qed
qed


lemma scan_loop_acc1:
  "scan_loop env hp metric kw tp n pts tms [v] [c] s =
     (case scan_loop env hp metric kw tp n pts tms [] [] s of
        (s', new, r) \<Rightarrow>
          (s', c # new, case r of Inl e \<Rightarrow> Inl e | Inr vs \<Rightarrow> Inr (v # vs)))"
  by (simp add: scan_loop_acc [of "[c]"] split: prod.splits sum.splits)

lemma scan_loop_Cons_raise:
  "metric (dict_zip hp p) kw s = (Inl e, s1) \<Longrightarrow>
   scan_loop env hp metric kw tp n (p # rest) tms [] [] s = (s1, [(dict_zip hp p, Inl e)], Inl e)"
  by simp

lemma scan_loop_Cons_quiet:
  "metric (dict_zip hp p) kw s = (Inr v, s1) \<Longrightarrow> \<not> (0 < n \<and> n mod report_after = 0) \<Longrightarrow>
   scan_loop env hp metric kw tp n (p # rest) tms [] [] s =
     (case scan_loop env hp metric kw tp (Suc n) rest tms [] [] s1 of
        (s', new, r) \<Rightarrow>
          (s', (dict_zip hp p, Inr v) # new,
           case r of Inl e \<Rightarrow> Inl e | Inr vs \<Rightarrow> Inr (v # vs)))"
proof -
  assume m: "metric (dict_zip hp p) kw s = (Inr v, s1)"
  assume "\<not> (0 < n \<and> n mod report_after = 0)"
  then have c: "(0 < n \<and> n mod report_after = 0) = False" by simp
  show ?thesis
    by (simp add: m c scan_loop_acc1)
qed

lemma scan_loop_Cons_report_fail:
  "metric (dict_zip hp p) kw s = (Inr v, s1) \<Longrightarrow> 0 < n \<Longrightarrow> n mod report_after = 0 \<Longrightarrow>
   time_time env s1 = (t, s2) \<Longrightarrow> print_progress env (tms @ [t]) tp n s2 = (Some e, s3) \<Longrightarrow>
   scan_loop env hp metric kw tp n (p # rest) tms [] [] s = (s3, [(dict_zip hp p, Inr v)], Inl e)"
  by simp

lemma scan_loop_Cons_report_ok:
  "metric (dict_zip hp p) kw s = (Inr v, s1) \<Longrightarrow> 0 < n \<Longrightarrow> n mod report_after = 0 \<Longrightarrow>
   time_time env s1 = (t, s2) \<Longrightarrow> print_progress env (tms @ [t]) tp n s2 = (None, s3) \<Longrightarrow>
   scan_loop env hp metric kw tp n (p # rest) tms [] [] s =
     (case scan_loop env hp metric kw tp (Suc n) rest (tms @ [t]) [] [] s3 of
        (s', new, r) \<Rightarrow>
          (s', (dict_zip hp p, Inr v) # new,
           case r of Inl e \<Rightarrow> Inl e | Inr vs \<Rightarrow> Inr (v # vs)))"
  by (simp add: scan_loop_acc1)

declare scan_loop.simps(2) [simp del]

lemma scan_loop_Cons_cases [consumes 1, case_names raise report_fail continue]:
  assumes run: "scan_loop env hp metric kw tp n (p # rest) tms [] [] s = (s', new, r)"
  obtains
    e where "metric (dict_zip hp p) kw s = (Inl e, s')" "new = [(dict_zip hp p, Inl e)]" "r = Inl e"
  | v s1 t s2 e where "metric (dict_zip hp p) kw s = (Inr v, s1)" "0 < n" "n mod report_after = 0"
      "time_time env s1 = (t, s2)" "print_progress env (tms @ [t]) tp n s2 = (Some e, s')"
      "new = [(dict_zip hp p, Inr v)]" "r = Inl e"
  | v s1 tms1 s2 new1 r1 where "metric (dict_zip hp p) kw s = (Inr v, s1)"
      "scan_loop env hp metric kw tp (Suc n) rest tms1 [] [] s2 = (s', new1, r1)"
      "new = (dict_zip hp p, Inr v) # new1"
      "r = (case r1 of Inl e \<Rightarrow> Inl e | Inr vs \<Rightarrow> Inr (v # vs))"
proof -
  obtain mr s1 where m: "metric (dict_zip hp p) kw s = (mr, s1)"
    by (cases "metric (dict_zip hp p) kw s")
  show thesis
  proof (cases mr)
    case (Inl e)
    with m run that(1) [of e] show thesis
      by (simp add: scan_loop_Cons_raise)
  next
    case (Inr v)
    with m have mv: "metric (dict_zip hp p) kw s = (Inr v, s1)" by simp
    show thesis
    proof (cases "0 < n \<and> n mod report_after = 0")
      case False
      obtain sa na ra where rec: "scan_loop env hp metric kw tp (Suc n) rest tms [] [] s1 = (sa, na, ra)"
        by (cases "scan_loop env hp metric kw tp (Suc n) rest tms [] [] s1")
      with run mv False that(3) [of v s1 tms s1 na ra] show thesis
        by (simp add: scan_loop_Cons_quiet)
    next
      case True
      obtain t s2 where tt: "time_time env s1 = (t, s2)" by (cases "time_time env s1")
      obtain po s3 where pp: "print_progress env (tms @ [t]) tp n s2 = (po, s3)"
        by (cases "print_progress env (tms @ [t]) tp n s2")
      show thesis
      proof (cases po)
        case (Some e)
        with run mv True tt pp that(2) [of v s1 t s2 e] show thesis
          by (simp add: scan_loop_Cons_report_fail)
      next
        case None
        obtain sa na ra where rec:
          "scan_loop env hp metric kw tp (Suc n) rest (tms @ [t]) [] [] s3 = (sa, na, ra)"
          by (cases "scan_loop env hp metric kw tp (Suc n) rest (tms @ [t]) [] [] s3")
        with run mv True tt pp None that(3) [of v s1 "tms @ [t]" s3 na ra] show thesis
          by (simp add: scan_loop_Cons_report_ok)
      qed
    qed
  qed
qed

lemma scan_loop_log_args:
  "scan_loop env hp metric kw tp n pts tms [] [] s = (s', new, r) \<Longrightarrow>
   length new \<le> length pts \<and> map fst new = map (dict_zip hp) (take (length new) pts)"
proof (induction pts arbitrary: n tms s new r)
  case Nil
  then show ?case by simp
next
  case (Cons p rest)
  from Cons.prems show ?case
  proof (cases rule: scan_loop_Cons_cases)
    case (continue v s1 tms1 s2 new1 r1)
    from Cons.IH [OF continue(2)] continue(3) show ?thesis by simp
  qed simp_all
qed


lemma scan_loop_raise_last:
  "scan_loop env hp metric kw tp n pts tms [] [] s = (s', new, r) \<Longrightarrow>
   k < length new \<Longrightarrow> snd (new ! k) = Inl e \<Longrightarrow> r = Inl e \<and> length new = Suc k"
proof (induction pts arbitrary: n tms s new r k)
  case Nil
  then show ?case by simp
next
  case (Cons p rest)
  from Cons.prems(1) show ?case
  proof (cases rule: scan_loop_Cons_cases)
    case (raise e')
    with Cons.prems show ?thesis by simp
  next
    case (report_fail v s1 t s2 e')
    with Cons.prems show ?thesis by simp
  next
    case (continue v s1 tms1 s2 new1 r1)
    with Cons.prems obtain j where k: "k = Suc j" by (cases k) auto
    with Cons.prems continue have "j < length new1" "snd (new1 ! j) = Inl e" by auto
    from Cons.IH [OF continue(2) this] continue k show ?thesis by simp
  qed
qed


section \<open>The Cartesian product and row-major indexing\<close>










section \<open>The scan as a whole\<close>

lemma scan_fail_axes:
  "scan_axes sv = Inl e \<Longrightarrow>
   scan env hp sv metric kw s = \<lparr>world = s, calls = [], result = Inl e\<rparr>"
  by (simp add: scan_def)

lemma scan_unfold:
  assumes "scan_axes sv = Inr axes"
  obtains t0 s0 s1 log r where
    "time_time env s = (t0, s0)"
    "scan_loop env hp metric (case kw of None \<Rightarrow> Map.empty | Some m \<Rightarrow> m)
       (prod_list (map length axes)) 0 (itertools_product axes) [t0] [] [] s0 = (s1, log, r)"
    "scan env hp sv metric kw s =
       \<lparr>world = s1, calls = log,
        result = (case r of
                    Inl e \<Rightarrow> Inl e
                  | Inr vals \<Rightarrow>
                      (case np_array (FTYPE env) vals of
                         Inl e \<Rightarrow> Inl e
                       | Inr xs \<Rightarrow> reshape xs (map length axes)))\<rparr>"
proof -
  obtain t0 s0 where tt: "time_time env s = (t0, s0)" by (cases "time_time env s")
  obtain s1 log r where run:
    "scan_loop env hp metric (case kw of None \<Rightarrow> Map.empty | Some m \<Rightarrow> m)
       (prod_list (map length axes)) 0 (itertools_product axes) [t0] [] [] s0 = (s1, log, r)"
    by (cases "scan_loop env hp metric (case kw of None \<Rightarrow> Map.empty | Some m \<Rightarrow> m)
       (prod_list (map length axes)) 0 (itertools_product axes) [t0] [] [] s0")
  show thesis
  proof (rule that [OF tt run])
    show "scan env hp sv metric kw s =
       \<lparr>world = s1, calls = log,
        result = (case r of
                    Inl e \<Rightarrow> Inl e
                  | Inr vals \<Rightarrow>
                      (case np_array (FTYPE env) vals of
                         Inl e \<Rightarrow> Inl e
                       | Inr xs \<Rightarrow> reshape xs (map length axes)))\<rparr>"
      using assms tt run by (cases r) (simp_all add: scan_def)
  qed
qed





lemma scan_axes_bare:
  "svs \<noteq> [] \<Longrightarrow> isscalar (hd svs) \<Longrightarrow>
   scan_axes (Sequence svs) = Inr [svs] \<and> scan_axes (Iterable svs) = Inr [svs]"
  by (cases svs) (simp_all add: scan_axes_def materialize_def)

lemma scan_axes_wrapped:
  "scan_axes (Sequence [Sequence xs]) = Inr [xs] \<and> scan_axes (Sequence [Iterable xs]) = Inr [xs]"
  by (simp add: scan_axes_def materialize_def)

text \<open>
  A one-shot iterator passed bare is not covered by the two lemmas above: taking its
  first item at line 84 consumes that item, and the axis is what is left.
\<close>

lemma scan_axes_bare_generator:
  "isscalar x \<Longrightarrow> scan_axes (Generator (x # xs)) = Inr [xs]"
  by (simp add: scan_axes_def materialize_def)


lemma scan_cong_axes:
  "scan_axes sv = scan_axes sv' \<Longrightarrow>
   scan env hp sv metric kw s = scan env hp sv' metric kw s"
  by (simp add: scan_def)













lemmas scan_eval =
  scan_def scan_axes_def materialize_def scan_loop.simps dict_zip_def reshape_def Let_def
  report_after_def quiet_env_def closed_stdout_env_def metric_ab_def metric_const_def
  metric_boom_def metric_a_def grid23_def

lemma bit_length_le: "n < 2 ^ k \<Longrightarrow> bit_length n \<le> k"
proof (induction n arbitrary: k rule: bit_length.induct)
  case (1 n)
  show ?case
  proof (cases "n = 0")
    case True
    then show ?thesis by simp
  next
    case False
    with "1.prems" obtain j where k: "k = Suc j" by (cases k) auto
    with "1.prems" have "n div 2 < 2 ^ j" by auto
    from "1.IH" [OF False this] False k show ?thesis by simp
  qed
qed

lemma float_of_int_small:
  assumes v: "\<bar>v\<bar> < 2 ^ p" and pe: "p \<le> emax"
  shows "float_of_int p emax v = Inr v"
proof -
  from v have "nat \<bar>v\<bar> < 2 ^ p"
    by (simp add: nat_less_iff)
  then have "bit_length (nat \<bar>v\<bar>) \<le> p" by (rule bit_length_le)
  moreover have "(2::int) ^ p \<le> 2 ^ emax"
    using pe by (rule power_increasing) simp
  with v have "\<bar>v\<bar> < 2 ^ emax" by (rule less_le_trans)
  ultimately show ?thesis
    by (simp add: float_of_int_def round_to_precision_def Let_def del: bit_length.simps)
qed

lemma np_float64_small: "\<bar>v\<bar> < 2 ^ 53 \<Longrightarrow> np_float64 v = Inr v"
  unfolding np_float64_def by (rule float_of_int_small) simp_all

section \<open>The empty specification\<close>

text \<open>
  C10. For a specification with no element at all (an empty list or tuple, an empty
  array, an exhausted iterator), taking the first element at line 84 raises
  StopIteration: the scan ends with that error, the metric has not been called and no
  array is returned.
\<close>

theorem scan_empty_specification:
  "scan env hypo_params (Sequence []) metric metric_kw s =
     \<lparr>world = s, calls = [], result = Inl StopIteration\<rparr>
   \<and> scan env hypo_params (Iterable []) metric metric_kw s =
     \<lparr>world = s, calls = [], result = Inl StopIteration\<rparr>
   \<and> scan env hypo_params (Generator []) metric metric_kw s =
     \<lparr>world = s, calls = [], result = Inl StopIteration\<rparr>"
  by (simp add: scan_def scan_axes_def)

section \<open>The example of the specification\<close>

text \<open>
  C3. With the names (a, b), the axes [1, 2] and [10, 20, 30] and the metric
  \<open>va * 100 + vb\<close>, the scan returns the array of shape (2, 3) with the rows
  110, 120, 130 and 210, 220, 230, and it has called the metric exactly six times, on
  (1,10), (1,20), (1,30), (2,10), (2,20), (2,30) in this order. This holds for every
  float type of at least 8 significant bits as \<^verbatim>\<open>FTYPE\<close> (the six values are then
  exact), and whatever the clock and the printing do (no progress line is due before
  point 500).
\<close>

theorem scan_example_2x3:
  assumes "8 \<le> p" and "p \<le> emax"
  shows "result (scan (env\<lparr>FTYPE := float_of_int p emax\<rparr>) [''a'', ''b''] grid23 metric_ab None s) =
     Inr \<lparr>shape = [2, 3], data = [110, 120, 130, 210, 220, 230]\<rparr>
   \<and> calls (scan (env\<lparr>FTYPE := float_of_int p emax\<rparr>) [''a'', ''b''] grid23 metric_ab None s) =
     [([''a'' \<mapsto> Scalar 1, ''b'' \<mapsto> Scalar 10], Inr 110),
      ([''a'' \<mapsto> Scalar 1, ''b'' \<mapsto> Scalar 20], Inr 120),
      ([''a'' \<mapsto> Scalar 1, ''b'' \<mapsto> Scalar 30], Inr 130),
      ([''a'' \<mapsto> Scalar 2, ''b'' \<mapsto> Scalar 10], Inr 210),
      ([''a'' \<mapsto> Scalar 2, ''b'' \<mapsto> Scalar 20], Inr 220),
      ([''a'' \<mapsto> Scalar 2, ''b'' \<mapsto> Scalar 30], Inr 230)]
   \<and> [[item \<lparr>shape = [2, 3], data = [110, 120, 130, 210, 220, 230 :: int]\<rparr> [0, 0],
        item \<lparr>shape = [2, 3], data = [110, 120, 130, 210, 220, 230]\<rparr> [0, 1],
        item \<lparr>shape = [2, 3], data = [110, 120, 130, 210, 220, 230]\<rparr> [0, 2]],
       [item \<lparr>shape = [2, 3], data = [110, 120, 130, 210, 220, 230]\<rparr> [1, 0],
        item \<lparr>shape = [2, 3], data = [110, 120, 130, 210, 220, 230]\<rparr> [1, 1],
        item \<lparr>shape = [2, 3], data = [110, 120, 130, 210, 220, 230]\<rparr> [1, 2]]] =
     [[Some 110, Some 120, Some 130], [Some 210, Some 220, Some 230]]"
proof -
  have exact: "float_of_int p emax v = Inr v" if "\<bar>v\<bar> < 256" for v
  proof (rule float_of_int_small)
    have "(2::int) ^ 8 \<le> 2 ^ p"
      using assms(1) by (rule power_increasing) simp
    moreover from that have "\<bar>v\<bar> < 2 ^ 8" by simp
    ultimately show "\<bar>v\<bar> < 2 ^ p" by (rule less_le_trans [rotated])
  qed (rule assms(2))
  show ?thesis
    by (simp add: scan_eval exact item_def split: prod.splits)
qed

text \<open>The theorem at the 64-bit float: 53 significant bits.\<close>

theorem scan_example_2x3_witness:
  "(8::nat) \<le> 53 \<and> (53::nat) \<le> 1024
   \<and> result (scan quiet_env [''a'', ''b''] grid23 metric_ab None ()) =
       Inr \<lparr>shape = [2, 3], data = [110, 120, 130, 210, 220, 230]\<rparr>"
proof -
  have p: "(8::nat) \<le> 53" and e: "(53::nat) \<le> 1024" by simp_all
  have env: "quiet_env\<lparr>FTYPE := float_of_int 53 1024\<rparr> = quiet_env"
    by (simp add: quiet_env_def np_float64_def)
  from scan_example_2x3 [OF p e, of quiet_env "()"] show ?thesis
    by (simp add: env)
qed

section \<open>An error of the metric\<close>

text \<open>
  C4. If the invocation of the metric on the k-th enumerated point raises \<open>e\<close>, the
  scan raises \<open>e\<close>, that invocation is the last one (the log has exactly \<open>k + 1\<close>
  entries), and no array is returned. The k-th entry of the log is the invocation on
  the k-th point of the enumeration.
\<close>

theorem metric_error_propagates:
  assumes k: "k < length (calls (scan env hp sv metric kw s))"
    and raised: "snd (calls (scan env hp sv metric kw s) ! k) = Inl e"
  shows "result (scan env hp sv metric kw s) = Inl e
    \<and> length (calls (scan env hp sv metric kw s)) = Suc k
    \<and> (\<exists>axes. scan_axes sv = Inr axes \<and> k < length (itertools_product axes)
          \<and> fst (calls (scan env hp sv metric kw s) ! k) = dict_zip hp (itertools_product axes ! k))"
proof (cases "scan_axes sv")
  case (Inl e')
  with k show ?thesis by (simp add: scan_fail_axes)
next
  case (Inr axes)
  then obtain t0 s0 s1 log r where
    run: "scan_loop env hp metric (case kw of None \<Rightarrow> Map.empty | Some m \<Rightarrow> m)
       (prod_list (map length axes)) 0 (itertools_product axes) [t0] [] [] s0 = (s1, log, r)"
    and out: "scan env hp sv metric kw s =
       \<lparr>world = s1, calls = log,
        result = (case r of
                    Inl e \<Rightarrow> Inl e
                  | Inr vals \<Rightarrow>
                      (case np_array (FTYPE env) vals of
                         Inl e \<Rightarrow> Inl e
                       | Inr xs \<Rightarrow> reshape xs (map length axes)))\<rparr>"
    by (rule scan_unfold)
  from k raised out have k': "k < length log" and raised': "snd (log ! k) = Inl e" by simp_all
  from scan_loop_raise_last [OF run k' raised'] have r: "r = Inl e" and len: "length log = Suc k"
    by simp_all
  from scan_loop_log_args [OF run] have le: "length log \<le> length (itertools_product axes)"
    and args: "map fst log = map (dict_zip hp) (take (length log) (itertools_product axes))"
    by simp_all
  from le len have kp: "k < length (itertools_product axes)" by simp
  from args have "map fst log ! k = map (dict_zip hp) (take (length log) (itertools_product axes)) ! k"
    by simp
  with k' kp len have "fst (log ! k) = dict_zip hp (itertools_product axes ! k)" by simp
  with Inr out r len kp show ?thesis by simp
qed

theorem metric_error_propagates_witness:
  "3 < length (calls (scan quiet_env [''a'', ''b''] grid23 metric_boom None ()))
   \<and> snd (calls (scan quiet_env [''a'', ''b''] grid23 metric_boom None ()) ! 3) =
       Inl (Exception ''boom'')
   \<and> result (scan quiet_env [''a'', ''b''] grid23 metric_boom None ()) = Inl (Exception ''boom'')
   \<and> length (calls (scan quiet_env [''a'', ''b''] grid23 metric_boom None ())) = 4"
proof -
  have k: "3 < length (calls (scan quiet_env [''a'', ''b''] grid23 metric_boom None ()))"
    by (simp add: scan_eval)
  have raised: "snd (calls (scan quiet_env [''a'', ''b''] grid23 metric_boom None ()) ! 3) =
       Inl (Exception ''boom'')"
    by (simp add: scan_eval)
  note propagated = metric_error_propagates [OF k raised]
  from propagated
  have r: "result (scan quiet_env [''a'', ''b''] grid23 metric_boom None ()) = Inl (Exception ''boom'')"
    by (rule conjunct1)
  from propagated
  have l: "length (calls (scan quiet_env [''a'', ''b''] grid23 metric_boom None ())) = Suc 3"
    by (elim conjE)
  from k raised r l show ?thesis by simp
qed

section \<open>The shape of the result\<close>




section \<open>The order of the points\<close>




section \<open>An axis without values\<close>




section \<open>The single-axis convenience form\<close>

text \<open>
  C6, as the claim states it (for every one-dimensional collection), fails on the empty
  collection: passed bare it raises StopIteration, wrapped as the only axis it gives
  the empty array of shape (0,).
\<close>

theorem scan_bare_empty_differs:
  "result (scan quiet_env [''a''] (Sequence []) (metric_const 0) None ()) = Inl StopIteration
   \<and> result (scan quiet_env [''a''] (Sequence [Sequence []]) (metric_const 0) None ()) =
       Inr \<lparr>shape = [0], data = []\<rparr>"
  by (simp add: scan_eval)

text \<open>
  C6, amended. For every one-dimensional collection of scalars with at least one item,
  passed bare as the whole specification, the first item is found to be a scalar, the
  whole specification becomes the only axis, and the scan gives the same outcome
  (result, invocations, state) as for the collection wrapped in a one-item list.
\<close>

theorem scan_bare_single_axis:
  assumes "xs \<noteq> []" and "\<forall>x\<in>set xs. isscalar x"
  shows "scan_axes (Sequence xs) = Inr [xs]
    \<and> scan env hp (Sequence xs) metric kw s = scan env hp (Sequence [Sequence xs]) metric kw s
    \<and> scan env hp (Iterable xs) metric kw s = scan env hp (Sequence [Iterable xs]) metric kw s"
proof -
  from assms have "isscalar (hd xs)" by (cases xs) auto
  from scan_axes_bare [OF assms(1) this] scan_axes_wrapped [of xs]
  show ?thesis
    by (simp add: scan_cong_axes [of "Sequence xs" "Sequence [Sequence xs]"]
          scan_cong_axes [of "Iterable xs" "Sequence [Iterable xs]"])
qed

text \<open>The theorem at the bare axis [1, 2, 3].\<close>

theorem scan_bare_single_axis_witness:
  "[Scalar (1::int), Scalar 2, Scalar 3] \<noteq> []
   \<and> list_all isscalar [Scalar (1::int), Scalar 2, Scalar 3]
   \<and> scan quiet_env [''a''] (Sequence [Scalar 1, Scalar 2, Scalar 3]) metric_a None () =
       scan quiet_env [''a''] (Sequence [Sequence [Scalar 1, Scalar 2, Scalar 3]]) metric_a None ()
   \<and> result (scan quiet_env [''a''] (Sequence [Scalar 1, Scalar 2, Scalar 3]) metric_a None ()) =
       Inr \<lparr>shape = [3], data = [1, 2, 3]\<rparr>"
proof -
  have ne: "[Scalar (1::int), Scalar 2, Scalar 3] \<noteq> []" by simp
  have sc: "\<forall>x\<in>set [Scalar (1::int), Scalar 2, Scalar 3]. isscalar x" by simp
  have r: "result (scan quiet_env [''a''] (Sequence [Scalar 1, Scalar 2, Scalar 3]) metric_a None ()) =
       Inr \<lparr>shape = [3], data = [1, 2, 3]\<rparr>"
    by (simp add: scan_eval np_float64_small)
  from scan_bare_single_axis [OF ne sc, of quiet_env "[''a'']" metric_a None "()"] ne sc r
  show ?thesis by simp
qed

section \<open>The axis names\<close>




section \<open>A failure of the progress report\<close>




section \<open>The conversion to the item type\<close>




end
